theory Spec2Isabelle
  imports Main
begin

section \<open>Values shared by the screens\<close>

text \<open>
  Python objects are shared by reference: the persistent-data bundle is one \<^verbatim>\<open>dict\<close>
  that the outgoing screen, the controller and the incoming screen all point to, and the
  screens are objects that the registry and \<^verbatim>\<open>Control.state\<close> both point to. Both
  kinds of object therefore live in a store and are named by an address.
\<close>

type_synonym addr = nat

text \<open>
  A screen identifier is what \<^verbatim>\<open>State.next\<close> and \<^verbatim>\<open>Control.state_name\<close> hold:
  a string, or Python's \<^verbatim>\<open>None\<close> (the value both have after \<^verbatim>\<open>__init__\<close>).
\<close>

type_synonym ident = "string option"

text \<open>
  The keys of the keyboard that \<^verbatim>\<open>pygame\<close> names (\<^verbatim>\<open>pg.K_UP\<close>, ...): distinct
  integer constants of the library, so a datatype. A key snapshot
  (\<^verbatim>\<open>pg.key.get_pressed()\<close>) answers for every key whether it is held.
\<close>

datatype pg_key = K_UP | K_DOWN | K_RETURN | K_LEFT | K_RIGHT | K_a | K_s | K_other nat

type_synonym keys = "pg_key \<Rightarrow> bool"

text \<open>
  Modelled from the spec: \<^verbatim>\<open>source/constants.py\<close> is not among the sources. The spec
  lists the keys of the bundle as seven different fields (coin total, score, lives, top
  score, elapsed time, level number, player identity); the constructors below carry the
  names the code uses for them (\<^verbatim>\<open>c.COIN_TOTAL\<close>, ...), and \<open>OTHER\<close> stands for
  any further key of the open-ended mapping.
\<close>

datatype bkey =
  COIN_TOTAL | SCORE | LIVES | TOP_SCORE | CURRENT_TIME | LEVEL_NUM | PLAYER_NAME
  | OTHER string

text \<open>
  The values stored in the bundle are Python numbers and strings. Every time in the
  program is an integer tick count of \<^verbatim>\<open>pg.time.get_ticks()\<close>, except the float
  literal \<^verbatim>\<open>0.0\<close>, which Python compares and subtracts exactly like the integer
  \<^verbatim>\<open>0\<close>; numbers are therefore integers here and \<^verbatim>\<open>0.0\<close> is \<open>0\<close>.
\<close>

datatype val = Num int | Str string

type_synonym pbundle = "bkey \<rightharpoonup> val"

type_synonym dicts = "addr \<Rightarrow> pbundle"

text \<open>
  Modelled from the spec: the remaining constants of \<^verbatim>\<open>source/constants.py\<close>. The two
  cursor states \<^verbatim>\<open>c.PLAYER1\<close> and \<^verbatim>\<open>c.PLAYER2\<close> are the spec's two character
  selections, hence different; the player names are the default and the alternate
  character; \<^verbatim>\<open>c.LOAD_SCREEN\<close> is the identifier of the menu's fixed successor.
\<close>

datatype cursor_state = PLAYER1 | PLAYER2

definition PLAYER_MARIO :: val where
  "PLAYER_MARIO = Str ''mario''"

definition PLAYER_LUIGI :: val where
  "PLAYER_LUIGI = Str ''luigi''"

definition MAIN_MENU :: ident where
  "MAIN_MENU = Some ''main menu''"

definition LOAD_SCREEN :: ident where
  "LOAD_SCREEN = Some ''load screen''"

section \<open>\<^verbatim>\<open>tools.State\<close>: the generic screen\<close>

text \<open>
  The attributes \<^verbatim>\<open>State.__init__\<close> creates. \<open>persist\<close> is the address of the bundle.
  A subclass adds attributes by extending the record, so every function on
  \<open>'a State_scheme\<close> is inherited by it.
\<close>

record State =
  start_time :: int
  current_time :: int
  "done" :: bool
  "next" :: ident
  persist :: addr

text \<open>
  \<^verbatim>\<open>State.cleanup\<close>: \<^verbatim>\<open>self.done = False; return self.persist\<close>. The result is the
  returned reference and the object after the call.
\<close>

definition cleanup :: "'a State_scheme \<Rightarrow> addr \<times> 'a State_scheme" where
  "cleanup self = (let self1 = self\<lparr>done := False\<rparr> in (persist self1, self1))"

section \<open>\<^verbatim>\<open>states.main_menu.Menu\<close>\<close>

text \<open>
  The attributes of \<^verbatim>\<open>Menu\<close> that decide its behaviour: \<open>game_info\<close> (a second
  reference to the bundle), \<open>player_index\<close>, the cursor's \<^verbatim>\<open>state\<close> and
  \<^verbatim>\<open>rect.y\<close>, and \<open>timer_start\<close>. The images, rectangles and the surface it draws on
  belong to the rendering collaborators and carry no state that the menu reads back:
  \<^verbatim>\<open>player_list\<close> is rebuilt with its two entries by every \<^verbatim>\<open>startup\<close> and
  \<open>player_index\<close> is only ever assigned \<^verbatim>\<open>0\<close> or \<^verbatim>\<open>1\<close>, so the subscript in
  \<^verbatim>\<open>update\<close> is always in range.
\<close>

record Menu = State +
  game_info :: addr
  player_index :: nat
  cursor_state :: cursor_state
  cursor_y :: int
  timer_start :: int

text \<open>\<^verbatim>\<open>d[k] = v\<close> on the dictionary at address \<open>a\<close>.\<close>

definition setitem :: "addr \<Rightarrow> bkey \<Rightarrow> val \<Rightarrow> dicts \<Rightarrow> dicts" where
  "setitem a k v ds = ds(a := (ds a)(k \<mapsto> v))"

text \<open>
  Modelled from the spec: \<^verbatim>\<open>components/info.py\<close> (the heads-up display \<^verbatim>\<open>Info\<close>) is
  not among the sources; the spec excludes it as a rendering collaborator that consumes
  the bundle. Its constructor, called in \<^verbatim>\<open>Menu.startup\<close>, and its
  \<^verbatim>\<open>update(game_info)\<close> read the bundle and leave it as it is.
\<close>

definition Info_update :: "addr \<Rightarrow> dicts \<Rightarrow> dicts" where
  "Info_update gi ds = ds"

text \<open>
  \<^verbatim>\<open>Menu.startup\<close>. \<^verbatim>\<open>setup_background\<close> only loads images;
  \<^verbatim>\<open>setup_player\<close> sets \<^verbatim>\<open>player_index = 0\<close>; \<^verbatim>\<open>setup_cursor\<close> puts the cursor at
  \<^verbatim>\<open>(220, 358)\<close> in state \<^verbatim>\<open>c.PLAYER1\<close>. No dictionary is written.
\<close>

definition setup_player :: "'z Menu_scheme \<Rightarrow> 'z Menu_scheme" where
  "setup_player self = self\<lparr>player_index := 0\<rparr>"

definition setup_cursor :: "'z Menu_scheme \<Rightarrow> 'z Menu_scheme" where
  "setup_cursor self = self\<lparr>cursor_y := 358, cursor_state := PLAYER1\<rparr>"

definition Menu_startup :: "int \<Rightarrow> addr \<Rightarrow> 'z Menu_scheme \<Rightarrow> 'z Menu_scheme" where
  "Menu_startup t pers self =
     (let self1 = self\<lparr>next := LOAD_SCREEN\<rparr>;
          self2 = self1\<lparr>persist := pers\<rparr>;
          self3 = self2\<lparr>game_info := pers\<rparr>;
          self4 = setup_player self3;
          self5 = setup_cursor self4
      in self5\<lparr>timer_start := t\<rparr>)"

text \<open>\<^verbatim>\<open>Menu.reset_game_info\<close>: five stores into the bundle, then \<^verbatim>\<open>self.persist = self.game_info\<close>.\<close>

definition reset_game_info :: "'z Menu_scheme \<times> dicts \<Rightarrow> 'z Menu_scheme \<times> dicts" where
  "reset_game_info = (\<lambda>(self, ds).
     (let ds1 = setitem (game_info self) COIN_TOTAL (Num 0) ds;
          ds2 = setitem (game_info self) SCORE (Num 0) ds1;
          ds3 = setitem (game_info self) LIVES (Num 3) ds2;
          ds4 = setitem (game_info self) CURRENT_TIME (Num 0) ds3;
          ds5 = setitem (game_info self) LEVEL_NUM (Num 1) ds4
      in (self\<lparr>persist := game_info self\<rparr>, ds5)))"

text \<open>\<^verbatim>\<open>Menu.update_cursor\<close>, branch by branch.\<close>

definition update_cursor :: "keys \<Rightarrow> 'z Menu_scheme \<times> dicts \<Rightarrow> 'z Menu_scheme \<times> dicts" where
  "update_cursor ks = (\<lambda>(self, ds).
     (let (self1, ds1) =
        (if cursor_state self = PLAYER1 then
           (let s = self\<lparr>cursor_y := 358\<rparr> in
            if ks K_DOWN then
              (s\<lparr>cursor_state := PLAYER2, player_index := 1\<rparr>,
               setitem (game_info s) PLAYER_NAME PLAYER_LUIGI ds)
            else (s, ds))
         else if cursor_state self = PLAYER2 then
           (let s = self\<lparr>cursor_y := 403\<rparr> in
            if ks K_UP then
              (s\<lparr>cursor_state := PLAYER1, player_index := 0\<rparr>,
               setitem (game_info s) PLAYER_NAME PLAYER_MARIO ds)
            else (s, ds))
         else (self, ds))
      in if ks K_RETURN then
           (let (self2, ds2) = reset_game_info (self1, ds1) in (self2\<lparr>done := True\<rparr>, ds2))
         else (self1, ds1)))"

text \<open>
  \<^verbatim>\<open>Menu.update\<close>. The \<^verbatim>\<open>surface.blit\<close> calls and \<^verbatim>\<open>overhead_info.draw\<close> only
  paint; the time-out test comes last, after the cursor has been handled.
\<close>

definition Menu_update :: "keys \<Rightarrow> int \<Rightarrow> 'z Menu_scheme \<times> dicts \<Rightarrow> 'z Menu_scheme \<times> dicts" where
  "Menu_update ks t = (\<lambda>(self, ds).
     (let self1 = self\<lparr>current_time := t\<rparr>;
          ds1 = setitem (game_info self1) CURRENT_TIME (Num (current_time self1)) ds;
          (self2, ds2) = update_cursor ks (self1, ds1);
          ds3 = Info_update (game_info self2) ds2;
          elapsed_time = t - timer_start self2
      in if elapsed_time \<ge> 1000 then (self2\<lparr>done := True, next := LOAD_SCREEN\<rparr>, ds3)
         else (self2, ds3)))"

text \<open>
  \<^verbatim>\<open>State.__init__\<close> and \<^verbatim>\<open>Menu.__init__\<close>. Each creates a dictionary: \<open>e\<close> is the
  address the allocator gives to the empty one of \<^verbatim>\<open>State.__init__\<close>, \<open>p\<close> the address of
  the bundle with the defaults. The attributes that only \<^verbatim>\<open>startup\<close> creates are
  written once more by the \<^verbatim>\<open>self.startup(0.0, persist)\<close> that ends \<^verbatim>\<open>__init__\<close>.
\<close>

definition State_init :: "addr \<Rightarrow> dicts \<Rightarrow> State \<times> dicts" where
  "State_init e ds =
     (\<lparr>start_time = 0, current_time = 0, done = False, next = None, persist = e\<rparr>,
      ds(e := Map.empty))"

definition Menu_init :: "addr \<Rightarrow> addr \<Rightarrow> dicts \<Rightarrow> Menu \<times> dicts" where
  "Menu_init e p ds =
     (let (s, ds1) = State_init e ds;
          ds2 = ds1(p := [COIN_TOTAL \<mapsto> Num 0, SCORE \<mapsto> Num 0, LIVES \<mapsto> Num 3,
                          TOP_SCORE \<mapsto> Num 0, CURRENT_TIME \<mapsto> Num 0, LEVEL_NUM \<mapsto> Num 1,
                          PLAYER_NAME \<mapsto> PLAYER_MARIO]);
          self = State.extend s
                   \<lparr>game_info = p, player_index = 0, cursor_state = PLAYER1, cursor_y = 358,
                    timer_start = 0\<rparr>
      in (Menu_startup 0 p self, ds2))"

text \<open>
  The two methods as the controller calls them: on the object at address \<open>self\<close> of a
  store. A store holds the screen objects and the dictionaries.
\<close>

record 'x heap =
  objs :: "addr \<Rightarrow> 'x State_scheme"
  dicts :: "addr \<Rightarrow> pbundle"

definition Menu_startup_m :: "addr \<Rightarrow> int \<Rightarrow> addr \<Rightarrow> ('z Menu_ext) heap \<Rightarrow> ('z Menu_ext) heap" where
  "Menu_startup_m self t pers h = h\<lparr>objs := (objs h)(self := Menu_startup t pers (objs h self))\<rparr>"

definition Menu_update_m :: "addr \<Rightarrow> keys \<Rightarrow> int \<Rightarrow> ('z Menu_ext) heap \<Rightarrow> ('z Menu_ext) heap" where
  "Menu_update_m self ks t h =
     (let (self', ds') = Menu_update ks t (objs h self, dicts h)
      in h\<lparr>objs := (objs h)(self := self'), dicts := ds'\<rparr>)"

text \<open>
  Repeated \<^verbatim>\<open>update\<close> calls on one menu, one per frame, each with the key snapshot and
  the time of its frame.
\<close>

fun Menu_updates :: "(keys \<times> int) list \<Rightarrow> 'z Menu_scheme \<times> dicts \<Rightarrow> 'z Menu_scheme \<times> dicts" where
  "Menu_updates [] md = md"
| "Menu_updates ((ks, t) # fs) md = Menu_updates fs (Menu_update ks t md)"

text \<open>
  What a menu shows of itself to the controller and to the next update: every attribute
  but \<open>start_time\<close>, which no code reads, and \<open>current_time\<close>, which \<^verbatim>\<open>update\<close>
  overwrites before use.
\<close>

definition observe :: "'z Menu_scheme \<Rightarrow> bool \<times> ident \<times> addr \<times> addr \<times> nat \<times> cursor_state \<times> int \<times> int" where
  "observe m = (done m, next m, persist m, game_info m, player_index m, cursor_state m,
                cursor_y m, timer_start m)"

section \<open>The \<^verbatim>\<open>pygame\<close> services the controller uses\<close>

text \<open>
  The library is the program's environment. Its state, as far as the controller can
  observe it: the queue of pending events (\<^verbatim>\<open>pg.event.get()\<close> returns all of them and
  leaves the queue empty), the keyboard snapshot that \<^verbatim>\<open>pg.key.get_pressed()\<close>
  returns, and the millisecond counter that \<^verbatim>\<open>pg.time.get_ticks()\<close> returns. Only the
  \<^verbatim>\<open>type\<close> of an event is read.
\<close>

datatype event = QUIT | KEYDOWN | KEYUP | OTHER_EVENT nat

record pygame =
  queue :: "event list"
  pressed :: keys
  ticks :: int

definition pg_event_get :: "pygame \<Rightarrow> event list \<times> pygame" where
  "pg_event_get p = (queue p, p\<lparr>queue := []\<rparr>)"

text \<open>
  What the environment does between two iterations of the main loop: new events join
  the queue, the keyboard and the clock move on.
\<close>

record os_input =
  arrived :: "event list"
  held :: keys
  now :: int

section \<open>\<^verbatim>\<open>tools.Control\<close>\<close>

text \<open>
  The attributes of the controller (the surface and the clock object are handles of the
  library). \<open>done_ctl\<close> and \<open>current_time_ctl\<close> are \<^verbatim>\<open>Control.done\<close> and
  \<^verbatim>\<open>Control.current_time\<close>, renamed apart from the attributes of \<^verbatim>\<open>State\<close>.
  \<open>state\<close> is \<^verbatim>\<open>None\<close> until \<^verbatim>\<open>setup_states\<close> has run.
\<close>

record Control =
  done_ctl :: bool
  fps :: nat
  current_time_ctl :: int
  keys :: keys
  state_dict :: "ident \<rightharpoonup> addr"
  state_name :: ident
  state :: "addr option"

text \<open>
  \<^verbatim>\<open>startup\<close> and \<^verbatim>\<open>update\<close> are abstract in \<^verbatim>\<open>State\<close>: each screen object brings
  the methods of its class, which may read and write any object of the store. They are
  taken as methods that return: nothing in the controller catches an exception, so a
  method that raises ends the run inside that call. \<^verbatim>\<open>cleanup\<close> is the one that
  \<^verbatim>\<open>State\<close> defines; \<^verbatim>\<open>Menu\<close> does not override it.
\<close>

record 'x methods =
  startup :: "addr \<Rightarrow> int \<Rightarrow> addr \<Rightarrow> 'x heap \<Rightarrow> 'x heap"
  update :: "addr \<Rightarrow> keys \<Rightarrow> int \<Rightarrow> 'x heap \<Rightarrow> 'x heap"

type_synonym 'x classes = "addr \<Rightarrow> 'x methods"

definition Menu_methods :: "('z Menu_ext) methods" where
  "Menu_methods = \<lparr>startup = Menu_startup_m, update = Menu_update_m\<rparr>"

text \<open>
  The calls the controller makes on screens and on the library, in the order it makes
  them. The list is an observer's record of a run; no code reads it.
\<close>

datatype call =
  EventGet | GetPressed
  | Cleanup addr | Startup addr int addr | Update addr int
  | DisplayUpdate | ClockTick nat

record 'x world =
  ctl :: Control
  heap :: "'x heap"
  pg :: pygame
  calls :: "call list"

datatype exn = KeyError ident | AttributeError

datatype 'a result = Ok 'a | Raised exn 'a

text \<open>An exception leaves the objects as they are when it is raised, and ends the run.\<close>

definition call_cleanup :: "addr \<Rightarrow> 'x world \<Rightarrow> addr \<times> 'x world" where
  "call_cleanup a w =
     (let (p, obj) = cleanup (objs (heap w) a)
      in (p, w\<lparr>heap := (heap w)\<lparr>objs := (objs (heap w))(a := obj)\<rparr>,
                calls := calls w @ [Cleanup a]\<rparr>))"

definition call_startup :: "'x classes \<Rightarrow> addr \<Rightarrow> int \<Rightarrow> addr \<Rightarrow> 'x world \<Rightarrow> 'x world" where
  "call_startup cls a t p w =
     w\<lparr>heap := startup (cls a) a t p (heap w), calls := calls w @ [Startup a t p]\<rparr>"

definition call_update :: "'x classes \<Rightarrow> addr \<Rightarrow> keys \<Rightarrow> int \<Rightarrow> 'x world \<Rightarrow> 'x world" where
  "call_update cls a ks t w =
     w\<lparr>heap := update (cls a) a ks t (heap w), calls := calls w @ [Update a t]\<rparr>"

text \<open>
  \<^verbatim>\<open>Control.setup_states\<close>: three assignments; the subscript raises \<^verbatim>\<open>KeyError\<close>
  when the start identifier is not a key. Nothing looks at the \<^verbatim>\<open>next\<close> of any screen.
\<close>

definition setup_states :: "(ident \<rightharpoonup> addr) \<Rightarrow> ident \<Rightarrow> 'x world \<Rightarrow> 'x world result" where
  "setup_states sd start_state w =
     (let w1 = w\<lparr>ctl := (ctl w)\<lparr>state_dict := sd\<rparr>\<rparr>;
          w2 = w1\<lparr>ctl := (ctl w1)\<lparr>state_name := start_state\<rparr>\<rparr>
      in case state_dict (ctl w2) (state_name (ctl w2)) of
           None \<Rightarrow> Raised (KeyError (state_name (ctl w2))) w2
         | Some a \<Rightarrow> Ok (w2\<lparr>ctl := (ctl w2)\<lparr>state := Some a\<rparr>\<rparr>))"

text \<open>
  \<^verbatim>\<open>Control.flip_state\<close>. The tuple assignment reads \<^verbatim>\<open>self.state.next\<close> and stores
  it in \<^verbatim>\<open>state_name\<close>; \<^verbatim>\<open>previous\<close> is never used. Then \<^verbatim>\<open>cleanup\<close> on the
  outgoing screen, the registry subscript (which raises \<^verbatim>\<open>KeyError\<close> on a missing
  identifier), and \<^verbatim>\<open>startup\<close> on the incoming screen.
\<close>

definition flip_state :: "'x classes \<Rightarrow> 'x world \<Rightarrow> 'x world result" where
  "flip_state cls w =
     (case state (ctl w) of
        None \<Rightarrow> Raised AttributeError w
      | Some s \<Rightarrow>
          (let w1 = w\<lparr>ctl := (ctl w)\<lparr>state_name := next (objs (heap w) s)\<rparr>\<rparr>;
               (persist', w2) = call_cleanup s w1
           in case state_dict (ctl w2) (state_name (ctl w2)) of
                None \<Rightarrow> Raised (KeyError (state_name (ctl w2))) w2
              | Some n \<Rightarrow>
                  (let w3 = w2\<lparr>ctl := (ctl w2)\<lparr>state := Some n\<rparr>\<rparr>
                   in Ok (call_startup cls n (current_time_ctl (ctl w3)) persist' w3))))"

text \<open>
  \<^verbatim>\<open>Control.update\<close>: read the clock, transition when the active screen is done, then
  \<^verbatim>\<open>update\<close> on the active screen.
\<close>

definition Control_update :: "'x classes \<Rightarrow> 'x world \<Rightarrow> 'x world result" where
  "Control_update cls w =
     (let w1 = w\<lparr>ctl := (ctl w)\<lparr>current_time_ctl := ticks (pg w)\<rparr>\<rparr>
      in case state (ctl w1) of
           None \<Rightarrow> Raised AttributeError w1
         | Some s \<Rightarrow>
             (case (if done (objs (heap w1) s) then flip_state cls w1 else Ok w1) of
                Raised e w2 \<Rightarrow> Raised e w2
              | Ok w2 \<Rightarrow>
                  (case state (ctl w2) of
                     None \<Rightarrow> Raised AttributeError w2
                   | Some s2 \<Rightarrow>
                       Ok (call_update cls s2 (keys (ctl w2)) (current_time_ctl (ctl w2)) w2))))"

text \<open>
  \<^verbatim>\<open>Control.event_loop\<close>: one \<^verbatim>\<open>pg.event.get()\<close>, then the events in order.
\<close>

definition handle_event :: "event \<Rightarrow> 'x world \<Rightarrow> 'x world" where
  "handle_event ev w =
     (if ev = QUIT then w\<lparr>ctl := (ctl w)\<lparr>done_ctl := True\<rparr>\<rparr>
      else if ev = KEYDOWN then
        w\<lparr>ctl := (ctl w)\<lparr>keys := pressed (pg w)\<rparr>, calls := calls w @ [GetPressed]\<rparr>
      else if ev = KEYUP then
        w\<lparr>ctl := (ctl w)\<lparr>keys := pressed (pg w)\<rparr>, calls := calls w @ [GetPressed]\<rparr>
      else w)"

definition event_loop :: "'x world \<Rightarrow> 'x world" where
  "event_loop w =
     (let (evs, p) = pg_event_get (pg w);
          w1 = w\<lparr>pg := p, calls := calls w @ [EventGet]\<rparr>
      in fold handle_event evs w1)"

text \<open>
  The body of the loop of \<^verbatim>\<open>Control.main\<close>: \<^verbatim>\<open>event_loop\<close>, \<^verbatim>\<open>update\<close>,
  \<^verbatim>\<open>pg.display.update()\<close>, \<^verbatim>\<open>self.clock.tick(self.fps)\<close>. An exception in
  \<^verbatim>\<open>update\<close> leaves the body at once.
\<close>

definition display_update :: "'x world \<Rightarrow> 'x world" where
  "display_update w = w\<lparr>calls := calls w @ [DisplayUpdate]\<rparr>"

definition clock_tick :: "nat \<Rightarrow> 'x world \<Rightarrow> 'x world" where
  "clock_tick n w = w\<lparr>calls := calls w @ [ClockTick n]\<rparr>"

definition main_body :: "'x classes \<Rightarrow> 'x world \<Rightarrow> 'x world result" where
  "main_body cls w =
     (let w1 = event_loop w
      in case Control_update cls w1 of
           Raised e w2 \<Rightarrow> Raised e w2
         | Ok w2 \<Rightarrow>
             (let w3 = display_update w2 in Ok (clock_tick (fps (ctl w3)) w3)))"

definition arrive :: "os_input \<Rightarrow> 'x world \<Rightarrow> 'x world" where
  "arrive i w =
     w\<lparr>pg := \<lparr>queue = queue (pg w) @ arrived i, pressed = held i, ticks = now i\<rparr>\<rparr>"

text \<open>
  \<^verbatim>\<open>Control.main\<close>: \<^verbatim>\<open>while not self.done: ...\<close>. The environment's doings before
  iteration \<open>k\<close> are \<open>inp k\<close>. The loop may run forever, and then there is no result.
\<close>

partial_function (option) main :: "'x classes \<Rightarrow> (nat \<Rightarrow> os_input) \<Rightarrow> nat \<Rightarrow> 'x world \<Rightarrow> 'x world result option" where
  "main cls inp k w =
     (if \<not> done_ctl (ctl w) then
        (case main_body cls (arrive (inp k) w) of
           Raised e w' \<Rightarrow> Some (Raised e w')
         | Ok w' \<Rightarrow> main cls inp (Suc k) w')
      else Some (Ok w))"

text \<open>
  A finite run of frames, for statements about sequences of frames: the body of the
  loop once for each input of the list.
\<close>

fun frames :: "'x classes \<Rightarrow> os_input list \<Rightarrow> 'x world \<Rightarrow> 'x world result" where
  "frames cls [] w = Ok w"
| "frames cls (i # ins) w =
     (case main_body cls (arrive i w) of
        Raised e w' \<Rightarrow> Raised e w'
      | Ok w' \<Rightarrow> frames cls ins w')"

text \<open>
  \<^verbatim>\<open>Control.__init__\<close>: the flag is clear, the frame rate is 60, the keys are the
  library's snapshot, the registry is empty and there is no active screen yet.
\<close>

definition Control_init :: "pygame \<Rightarrow> Control" where
  "Control_init p =
     \<lparr>done_ctl = False, fps = 60, current_time_ctl = 0, keys = pressed p,
      state_dict = Map.empty, state_name = None, state = None\<rparr>"

text \<open>
  The hypothesis of a run in which the active screen is never found done: at the start
  of every frame of the run there is an active screen and its \<open>done\<close> is false.
\<close>

fun never_done :: "'x classes \<Rightarrow> os_input list \<Rightarrow> 'x world \<Rightarrow> bool" where
  "never_done cls [] w = True"
| "never_done cls (i # ins) w =
     (case state (ctl w) of
        None \<Rightarrow> False
      | Some s \<Rightarrow>
          (if done (objs (heap w) s) then False
           else (case main_body cls (arrive i w) of
                   Raised e w' \<Rightarrow> False
                 | Ok w' \<Rightarrow> never_done cls ins w')))"

text \<open>The calls of the record that are calls of a screen's methods.\<close>

fun screen_call :: "call \<Rightarrow> bool" where
  "screen_call (Cleanup a) = True"
| "screen_call (Startup a t p) = True"
| "screen_call (Update a t) = True"
| "screen_call c = False"

fun key_event :: "event \<Rightarrow> bool" where
  "key_event KEYDOWN = True"
| "key_event KEYUP = True"
| "key_event e = False"

section \<open>A small configuration\<close>

text \<open>
  Two menu objects as \<^verbatim>\<open>Menu()\<close> constructs them, at addresses 0 and 1 of the store,
  their dictionaries at addresses 0 to 3; a library state with no pending event, no key
  held and the clock at 0; a controller as \<^verbatim>\<open>Control()\<close> constructs it. The registry
  names the first menu \<^verbatim>\<open>c.MAIN_MENU\<close> and the second \<^verbatim>\<open>c.LOAD_SCREEN\<close> (the class
  of the real load screen is not among the sources). The theorems below are applied to
  this configuration.
\<close>

definition example_heap :: "(unit Menu_ext) heap" where
  "example_heap =
     (let (m0, ds0) = Menu_init 0 1 (\<lambda>a. Map.empty);
          (m1, ds1) = Menu_init 2 3 ds0
      in \<lparr>objs = (\<lambda>a. m0)(1 := m1), dicts = ds1\<rparr>)"

definition example_pg :: pygame where
  "example_pg = \<lparr>queue = [], pressed = (\<lambda>k. False), ticks = 0\<rparr>"

definition example_world :: "(unit Menu_ext) world" where
  "example_world =
     \<lparr>ctl = Control_init example_pg, heap = example_heap, pg = example_pg, calls = []\<rparr>"

definition example_registry :: "ident \<rightharpoonup> addr" where
  "example_registry = [MAIN_MENU \<mapsto> 0, LOAD_SCREEN \<mapsto> 1]"

definition example_classes :: "(unit Menu_ext) classes" where
  "example_classes = (\<lambda>a. Menu_methods)"

definition idle_input :: "int \<Rightarrow> os_input" where
  "idle_input t = \<lparr>arrived = [], held = (\<lambda>k. False), now = t\<rparr>"

definition quit_input :: "int \<Rightarrow> os_input" where
  "quit_input t = \<lparr>arrived = [QUIT], held = (\<lambda>k. False), now = t\<rparr>"

definition confirm_input :: "int \<Rightarrow> os_input" where
  "confirm_input t = \<lparr>arrived = [KEYDOWN], held = (\<lambda>k. k = K_RETURN), now = t\<rparr>"

text \<open>
  The configuration after \<^verbatim>\<open>setup_states(registry, c.MAIN_MENU)\<close>, and after one
  further frame in which the confirm key goes down.
\<close>

definition example_started :: "(unit Menu_ext) world" where
  "example_started =
     (case setup_states example_registry MAIN_MENU example_world of
        Ok w \<Rightarrow> w | Raised e w \<Rightarrow> w)"

definition example_confirmed :: "(unit Menu_ext) world" where
  "example_confirmed =
     (case frames example_classes [confirm_input 16] example_started of
        Ok w \<Rightarrow> w | Raised e w \<Rightarrow> w)"

text \<open>
  The same two steps with a registry that holds the menu alone, so that the menu's
  \<open>next\<close> names no registered screen; and the run of an idle frame followed by a frame
  in which the quit event arrives.
\<close>

definition lone_started :: "(unit Menu_ext) world" where
  "lone_started =
     (case setup_states [MAIN_MENU \<mapsto> 0] MAIN_MENU example_world of
        Ok w \<Rightarrow> w | Raised e w \<Rightarrow> w)"

definition lone_confirmed :: "(unit Menu_ext) world" where
  "lone_confirmed =
     (case frames example_classes [confirm_input 16] lone_started of
        Ok w \<Rightarrow> w | Raised e w \<Rightarrow> w)"

definition idle_then_quit :: "nat \<Rightarrow> os_input" where
  "idle_then_quit k = (if k = 0 then idle_input 16 else quit_input 32)"

definition example_idle :: "(unit Menu_ext) world" where
  "example_idle =
     (case frames example_classes [idle_input 16] example_started of
        Ok w \<Rightarrow> w | Raised e w \<Rightarrow> w)"

definition example_quit :: "(unit Menu_ext) world" where
  "example_quit =
     (case frames example_classes [idle_input 16, quit_input 32] example_started of
        Ok w \<Rightarrow> w | Raised e w \<Rightarrow> w)"

text \<open>
  A bundle in the middle of a game, for the statements about what the menu keeps.
\<close>

definition progress_dicts :: dicts where
  "progress_dicts =
     (\<lambda>a. [COIN_TOTAL \<mapsto> Num 7, SCORE \<mapsto> Num 1200, LIVES \<mapsto> Num 2,
            TOP_SCORE \<mapsto> Num 5000, CURRENT_TIME \<mapsto> Num 0, LEVEL_NUM \<mapsto> Num 3,
            PLAYER_NAME \<mapsto> PLAYER_LUIGI])"

definition example_menu :: Menu where
  "example_menu = fst (Menu_init 0 1 (\<lambda>a. Map.empty))"

text \<open>Four frames with no key pressed, at increasing times.\<close>

definition idle_frames :: "(keys \<times> int) list" where
  "idle_frames =
     [(\<lambda>k. False, 500), (\<lambda>k. False, 1249), (\<lambda>k. False, 1250), (\<lambda>k. False, 1500)]"

section \<open>Properties of the menu\<close>

lemma setitem_same [simp]: "setitem a k v ds a k = Some v"
  by (simp add: setitem_def)

lemma setitem_other_key [simp]: "k' \<noteq> k \<Longrightarrow> setitem a k v ds b k' = ds b k'"
  by (simp add: setitem_def)

lemma setitem_other_dict [simp]: "b \<noteq> a \<Longrightarrow> setitem a k v ds b = ds b"
  by (simp add: setitem_def)

lemma Menu_startup_fields:
  "next (Menu_startup T p m) = LOAD_SCREEN" "persist (Menu_startup T p m) = p"
  "game_info (Menu_startup T p m) = p" "cursor_state (Menu_startup T p m) = PLAYER1"
  "player_index (Menu_startup T p m) = 0" "timer_start (Menu_startup T p m) = T"
  "done (Menu_startup T p m) = done m" "cursor_y (Menu_startup T p m) = 358"
  by (simp_all add: Menu_startup_def setup_player_def setup_cursor_def Let_def)

subsection \<open>Resetting the game information\<close>

text \<open>
  C10. For every bundle, \<^verbatim>\<open>reset_game_info\<close> stores the defaults for coin total (0),
  score (0), lives (3), current time (0.0) and level number (1) in the bundle that
  \<open>game_info\<close> points to; the top score, the player identity and every other entry of that
  bundle keep their values, no other dictionary changes, and of the menu's attributes
  only \<open>persist\<close> is assigned (the address of that same bundle).
\<close>

theorem reset_game_info_defaults:
  "(let (self', ds') = reset_game_info (self, ds); g = game_info self in
      ds' g COIN_TOTAL = Some (Num 0) \<and> ds' g SCORE = Some (Num 0) \<and>
      ds' g LIVES = Some (Num 3) \<and> ds' g CURRENT_TIME = Some (Num 0) \<and>
      ds' g LEVEL_NUM = Some (Num 1) \<and>
      ds' g TOP_SCORE = ds g TOP_SCORE \<and> ds' g PLAYER_NAME = ds g PLAYER_NAME \<and>
      ds' g (OTHER x) = ds g (OTHER x) \<and>
      ds' = ds(g := ds' g) \<and>
      self' = self\<lparr>persist := g\<rparr>)"
  by (simp add: reset_game_info_def Let_def setitem_def)

lemma Menu_update_stats:
  assumes "\<not> ks K_RETURN" and "k \<noteq> PLAYER_NAME" and "k \<noteq> CURRENT_TIME"
  shows "snd (Menu_update ks t (m, ds)) a k = ds a k"
proof -
  have cur: "snd (update_cursor ks (m', ds')) a k = ds' a k" for m' :: "'a Menu_scheme" and ds'
    using assms(1,2)
    by (simp add: update_cursor_def Let_def setitem_def split: prod.splits)
  have "snd (Menu_update ks t (m, ds)) a k
      = snd (update_cursor ks (m\<lparr>current_time := t\<rparr>, setitem (game_info m) CURRENT_TIME (Num t) ds)) a k"
    by (simp add: Menu_update_def Info_update_def Let_def split: prod.splits)
  also have "\<dots> = setitem (game_info m) CURRENT_TIME (Num t) ds a k"
    by (rule cur)
  also have "\<dots> = ds a k"
    using assms(3) by simp
  finally show ?thesis .
qed

text \<open>
  C7. Activating the menu (\<^verbatim>\<open>startup\<close> on the menu object of a store) writes no
  dictionary at all. An \<^verbatim>\<open>update\<close> frame in which the confirm key (\<^verbatim>\<open>K_RETURN\<close>) is
  not pressed leaves coin total, score, lives and level number of every dictionary as
  they were. An \<^verbatim>\<open>update\<close> frame in which it is pressed leaves the four defaults
  (0, 0, 3, 1) in the bundle.
\<close>

theorem menu_resets_only_on_confirm:
  "dicts (Menu_startup_m self t p h) = dicts h \<and>
   (\<not> ks K_RETURN \<longrightarrow>
      (let ds' = snd (Menu_update ks t (m, ds)) in
         ds' a COIN_TOTAL = ds a COIN_TOTAL \<and> ds' a SCORE = ds a SCORE \<and>
         ds' a LIVES = ds a LIVES \<and> ds' a LEVEL_NUM = ds a LEVEL_NUM)) \<and>
   (ks K_RETURN \<longrightarrow>
      (let ds' = snd (Menu_update ks t (m, ds)); g = game_info m in
         ds' g COIN_TOTAL = Some (Num 0) \<and> ds' g SCORE = Some (Num 0) \<and>
         ds' g LIVES = Some (Num 3) \<and> ds' g LEVEL_NUM = Some (Num 1)))"
proof (intro conjI impI)
  show "dicts (Menu_startup_m self t p h) = dicts h"
    by (simp add: Menu_startup_m_def)
next
  assume "\<not> ks K_RETURN"
  then show "let ds' = snd (Menu_update ks t (m, ds)) in
         ds' a COIN_TOTAL = ds a COIN_TOTAL \<and> ds' a SCORE = ds a SCORE \<and>
         ds' a LIVES = ds a LIVES \<and> ds' a LEVEL_NUM = ds a LEVEL_NUM"
    by (simp add: Let_def Menu_update_stats)
next
  assume "ks K_RETURN"
  then show "let ds' = snd (Menu_update ks t (m, ds)); g = game_info m in
         ds' g COIN_TOTAL = Some (Num 0) \<and> ds' g SCORE = Some (Num 0) \<and>
         ds' g LIVES = Some (Num 3) \<and> ds' g LEVEL_NUM = Some (Num 1)"
    by (simp add: Menu_update_def update_cursor_def reset_game_info_def Info_update_def
        Let_def setitem_def split: prod.splits)
qed

subsection \<open>Choosing the character\<close>

lemma update_cursor_PLAYER1:
  "cursor_state m = PLAYER1 \<Longrightarrow> ks K_DOWN \<Longrightarrow> update_cursor ks (m, ds) = (m', ds') \<Longrightarrow>
   ds' (game_info m) PLAYER_NAME = Some PLAYER_LUIGI \<and> cursor_state m' = PLAYER2 \<and>
   game_info m' = game_info m \<and> (persist m' = persist m \<or> persist m' = game_info m)"
  by (auto simp: update_cursor_def reset_game_info_def Let_def setitem_def
      split: prod.splits if_splits)

lemma update_cursor_PLAYER2_up:
  "cursor_state m = PLAYER2 \<Longrightarrow> ks K_UP \<Longrightarrow> update_cursor ks (m, ds) = (m', ds') \<Longrightarrow>
   ds' (game_info m) PLAYER_NAME = Some PLAYER_MARIO \<and> cursor_state m' = PLAYER1 \<and>
   game_info m' = game_info m \<and> (persist m' = persist m \<or> persist m' = game_info m)"
  by (auto simp: update_cursor_def reset_game_info_def Let_def setitem_def
      split: prod.splits if_splits)

lemma update_cursor_PLAYER2_confirm:
  "cursor_state m = PLAYER2 \<Longrightarrow> ks K_RETURN \<Longrightarrow> \<not> ks K_UP \<Longrightarrow>
   update_cursor ks (m, ds) = (m', ds') \<Longrightarrow>
   ds' (game_info m) PLAYER_NAME = ds (game_info m) PLAYER_NAME \<and> done m' \<and>
   game_info m' = game_info m \<and> persist m' = game_info m"
  by (auto simp: update_cursor_def reset_game_info_def Let_def setitem_def
      split: prod.splits if_splits)

lemma Menu_update_via_cursor:
  "Menu_update ks t (m, ds) = (m', ds') \<Longrightarrow>
   \<exists>m1. update_cursor ks (m\<lparr>current_time := t\<rparr>, setitem (game_info m) CURRENT_TIME (Num t) ds)
           = (m1, ds') \<and>
     cursor_state m' = cursor_state m1 \<and> game_info m' = game_info m1 \<and>
     persist m' = persist m1 \<and> (done m1 \<longrightarrow> done m')"
  by (auto simp: Menu_update_def Info_update_def Let_def split: prod.splits if_splits)

lemma selection_from_PLAYER1:
  assumes st: "cursor_state m = PLAYER1" "persist m = game_info m"
    and dn: "ks1 K_DOWN"
    and u1: "Menu_update ks1 t1 (m, ds) = (m1, ds1)"
  shows "ds1 (persist m1) PLAYER_NAME = Some PLAYER_LUIGI \<and> cursor_state m1 = PLAYER2 \<and>
    (ks2 K_RETURN \<and> \<not> ks2 K_UP \<longrightarrow>
       (let (m2, ds2) = Menu_update ks2 t2 (m1, ds1)
        in ds2 (persist m2) PLAYER_NAME = Some PLAYER_LUIGI \<and> done m2)) \<and>
    (ks3 K_UP \<longrightarrow>
       (let (m3, ds3) = Menu_update ks3 t3 (m1, ds1)
        in ds3 (persist m3) PLAYER_NAME = Some PLAYER_MARIO \<and> cursor_state m3 = PLAYER1))"
proof -
  from Menu_update_via_cursor [OF u1] obtain c1 where
    c1: "update_cursor ks1 (m\<lparr>current_time := t1\<rparr>,
           setitem (game_info m) CURRENT_TIME (Num t1) ds) = (c1, ds1)"
    and e1: "cursor_state m1 = cursor_state c1" "game_info m1 = game_info c1"
      "persist m1 = persist c1"
    by blast
  from update_cursor_PLAYER1 [OF _ dn c1] st
  have f1: "ds1 (game_info m) PLAYER_NAME = Some PLAYER_LUIGI" "cursor_state c1 = PLAYER2"
    "game_info c1 = game_info m" "persist c1 = game_info m"
    by auto
  have a: "ds1 (persist m1) PLAYER_NAME = Some PLAYER_LUIGI" "cursor_state m1 = PLAYER2"
    "game_info m1 = game_info m" "persist m1 = game_info m"
    using e1 f1 by simp_all
  have b: "let (m2, ds2) = Menu_update ks2 t2 (m1, ds1)
        in ds2 (persist m2) PLAYER_NAME = Some PLAYER_LUIGI \<and> done m2"
    if k: "ks2 K_RETURN" "\<not> ks2 K_UP"
  proof -
    obtain m2 ds2 where u2: "Menu_update ks2 t2 (m1, ds1) = (m2, ds2)" by fastforce
    from Menu_update_via_cursor [OF u2] obtain c2 where
      c2: "update_cursor ks2 (m1\<lparr>current_time := t2\<rparr>,
             setitem (game_info m1) CURRENT_TIME (Num t2) ds1) = (c2, ds2)"
      and e2: "game_info m2 = game_info c2" "persist m2 = persist c2" "done c2 \<longrightarrow> done m2"
      by blast
    from update_cursor_PLAYER2_confirm [OF _ k c2] a
    have "ds2 (game_info m) PLAYER_NAME = Some PLAYER_LUIGI" "done c2"
      "persist c2 = game_info m"
      by simp_all
    with e2 u2 show ?thesis by simp
  qed
  have c: "let (m3, ds3) = Menu_update ks3 t3 (m1, ds1)
        in ds3 (persist m3) PLAYER_NAME = Some PLAYER_MARIO \<and> cursor_state m3 = PLAYER1"
    if k: "ks3 K_UP"
  proof -
    obtain m3 ds3 where u3: "Menu_update ks3 t3 (m1, ds1) = (m3, ds3)" by fastforce
    from Menu_update_via_cursor [OF u3] obtain c3 where
      c3: "update_cursor ks3 (m1\<lparr>current_time := t3\<rparr>,
             setitem (game_info m1) CURRENT_TIME (Num t3) ds1) = (c3, ds3)"
      and e3: "game_info m3 = game_info c3" "persist m3 = persist c3"
        "cursor_state m3 = cursor_state c3"
      by blast
    from update_cursor_PLAYER2_up [OF _ k c3] a
    have "ds3 (game_info m) PLAYER_NAME = Some PLAYER_MARIO" "cursor_state c3 = PLAYER1"
      "persist c3 = game_info m"
      by auto
    with e3 u3 show ?thesis by simp
  qed
  from a b c show ?thesis by blast
qed

text \<open>
  C6. The menu has just been activated (\<^verbatim>\<open>startup\<close>: the cursor is on the default
  character). After one \<^verbatim>\<open>update\<close> frame with the down key pressed, the player identity
  in the persistent-data bundle is Luigi and the cursor is on the alternate character.
  From there, a frame with the confirm key pressed (and the up key not pressed) leaves
  the identity Luigi and sets \<open>done\<close>; and a frame with the up key pressed sets the
  identity back to Mario and the cursor back to the default character.
\<close>

theorem menu_selection:
  assumes "ks1 K_DOWN"
    and "Menu_update ks1 t1 (Menu_startup T p m0, ds) = (m1, ds1)"
  shows "ds1 (persist m1) PLAYER_NAME = Some PLAYER_LUIGI \<and> cursor_state m1 = PLAYER2 \<and>
    (ks2 K_RETURN \<and> \<not> ks2 K_UP \<longrightarrow>
       (let (m2, ds2) = Menu_update ks2 t2 (m1, ds1)
        in ds2 (persist m2) PLAYER_NAME = Some PLAYER_LUIGI \<and> done m2)) \<and>
    (ks3 K_UP \<longrightarrow>
       (let (m3, ds3) = Menu_update ks3 t3 (m1, ds1)
        in ds3 (persist m3) PLAYER_NAME = Some PLAYER_MARIO \<and> cursor_state m3 = PLAYER1))"
  using assms
  by (intro selection_from_PLAYER1 [where m = "Menu_startup T p m0" and ds = ds])
    (simp_all add: Menu_startup_fields)

subsection \<open>The idle time-out\<close>

lemma Menu_update_idle:
  assumes "\<forall>k. \<not> ks k" and "Menu_update ks t (m, ds) = (m', ds')"
  shows "done m' = (done m \<or> 1000 \<le> t - timer_start m)"
    and "timer_start m' = timer_start m"
    and "next m' = (if 1000 \<le> t - timer_start m then LOAD_SCREEN else next m)"
  using assms
  by (auto simp: Menu_update_def update_cursor_def Info_update_def Let_def
      split: prod.splits if_splits)

lemma Menu_updates_idle:
  assumes "\<forall>f \<in> set fs. \<forall>k. \<not> fst f k"
  shows "done (fst (Menu_updates fs (m, ds)))
           = (done m \<or> (\<exists>f \<in> set fs. 1000 \<le> snd f - timer_start m))
    \<and> timer_start (fst (Menu_updates fs (m, ds))) = timer_start m
    \<and> (next m = LOAD_SCREEN \<longrightarrow> next (fst (Menu_updates fs (m, ds))) = LOAD_SCREEN)"
  using assms
proof (induction fs arbitrary: m ds)
  case Nil
  show ?case by simp
next
  case (Cons f fs)
  obtain ks t where f: "f = (ks, t)" by (cases f)
  obtain m' ds' where u: "Menu_update ks t (m, ds) = (m', ds')" by fastforce
  from Cons.prems f have idle: "\<forall>k. \<not> ks k" by simp
  note st = Menu_update_idle [OF idle u]
  from Cons.prems have "\<forall>f \<in> set fs. \<forall>k. \<not> fst f k" by simp
  from Cons.IH [OF this, of m' ds'] show ?case
    using f u st by auto
qed

text \<open>
  C5. A menu whose \<open>done\<close> is clear (as \<^verbatim>\<open>__init__\<close> and \<^verbatim>\<open>cleanup\<close> leave it) is
  activated by \<^verbatim>\<open>startup\<close> at time \<open>T\<close>; then \<^verbatim>\<open>update\<close> is called once per frame of
  \<open>fs\<close>, no key pressed in any frame, the times strictly increasing. After the call
  number \<open>i\<close>, \<open>done\<close> is true exactly when that call's time is at least \<open>T + 1000\<close>: it
  is false after every call before the threshold and true from the first call at or
  past it; and \<open>next\<close> is the load screen's identifier.
\<close>

theorem menu_timeout:
  assumes fresh: "\<not> done m0"
    and idle: "\<forall>f \<in> set fs. \<forall>k. \<not> fst f k"
    and incr: "sorted_wrt (<) (map snd fs)"
    and i: "i < length fs"
  shows "done (fst (Menu_updates (take (Suc i) fs) (Menu_startup T p m0, ds)))
           = (1000 \<le> snd (fs ! i) - T)
       \<and> next (fst (Menu_updates (take (Suc i) fs) (Menu_startup T p m0, ds))) = LOAD_SCREEN"
proof -
  let ?m = "Menu_startup T p m0"
  have idle': "\<forall>f \<in> set (take (Suc i) fs). \<forall>k. \<not> fst f k"
    using idle by (meson in_set_takeD)
  note r = Menu_updates_idle [OF idle', of ?m ds]
  have ex: "(\<exists>f \<in> set (take (Suc i) fs). 1000 \<le> snd f - T) = (1000 \<le> snd (fs ! i) - T)"
  proof
    assume "\<exists>f \<in> set (take (Suc i) fs). 1000 \<le> snd f - T"
    then obtain f where f: "f \<in> set (take (Suc i) fs)" "1000 \<le> snd f - T" by blast
    then obtain j where j: "j < Suc i" "j < length fs" "f = fs ! j"
      by (auto simp: in_set_conv_nth)
    have "snd (fs ! j) \<le> snd (fs ! i)"
    proof (cases "j = i")
      case True
      then show ?thesis by simp
    next
      case False
      with j have "j < i" by simp
      with incr i have "map snd fs ! j < map snd fs ! i"
        by (simp add: sorted_wrt_iff_nth_less)
      with i j show ?thesis by simp
    qed
    with f j show "1000 \<le> snd (fs ! i) - T" by simp
  next
    assume "1000 \<le> snd (fs ! i) - T"
    moreover have "fs ! i \<in> set (take (Suc i) fs)"
      using i by (metis in_set_conv_nth length_take lessI min_less_iff_conj nth_take)
    ultimately show "\<exists>f \<in> set (take (Suc i) fs). 1000 \<le> snd f - T" by blast
  qed
  from r ex fresh show ?thesis
    by (simp add: Menu_startup_fields)
qed

subsection \<open>Leaving a screen and coming back\<close>

lemma observe_update:
  assumes "observe m1 = observe m2"
  shows "snd (Menu_update ks t (m1, ds)) = snd (Menu_update ks t (m2, ds)) \<and>
         observe (fst (Menu_update ks t (m1, ds))) = observe (fst (Menu_update ks t (m2, ds)))"
  using assms
  by (auto simp: observe_def Menu_update_def update_cursor_def reset_game_info_def
      Info_update_def Let_def split: prod.splits if_splits)

lemma observe_updates:
  assumes "observe m1 = observe m2"
  shows "snd (Menu_updates fs (m1, ds)) = snd (Menu_updates fs (m2, ds)) \<and>
         observe (fst (Menu_updates fs (m1, ds))) = observe (fst (Menu_updates fs (m2, ds)))"
  using assms
proof (induction fs arbitrary: m1 m2 ds)
  case Nil
  then show ?case by simp
next
  case (Cons f fs)
  obtain ks t where f: "f = (ks, t)" by (cases f)
  obtain a da where a: "Menu_update ks t (m1, ds) = (a, da)" by fastforce
  obtain b db where b: "Menu_update ks t (m2, ds) = (b, db)" by fastforce
  from observe_update [OF Cons.prems, of ks t ds] a b
  have "da = db" "observe a = observe b" by simp_all
  with Cons.IH [of a b da] f a b show ?case by simp
qed

text \<open>
  C3. For every screen object \<open>s\<close>, whatever its state, \<^verbatim>\<open>cleanup\<close> returns the address
  of its bundle and leaves the object with \<open>done\<close> false and every other attribute as it
  was. For the menu, the screen of the sources: two menu objects in any two states
  \<open>m1\<close> and \<open>m2\<close> (one that has been through a whole activation, say, and one fresh),
  cleaned up and then activated by \<^verbatim>\<open>startup\<close> with the same time and bundle, go
  through the same frames \<open>fs\<close> in the same way: the dictionaries and everything the
  menus show are equal afterwards.
\<close>

theorem cleanup_reactivation:
  "done (snd (cleanup s)) = False \<and> fst (cleanup s) = persist s \<and>
   snd (cleanup s) = s\<lparr>done := False\<rparr> \<and>
   snd (Menu_updates fs (Menu_startup T p (snd (cleanup m1)), ds))
     = snd (Menu_updates fs (Menu_startup T p (snd (cleanup m2)), ds)) \<and>
   observe (fst (Menu_updates fs (Menu_startup T p (snd (cleanup m1)), ds)))
     = observe (fst (Menu_updates fs (Menu_startup T p (snd (cleanup m2)), ds)))"
proof -
  have "observe (Menu_startup T p (snd (cleanup m1)))
      = observe (Menu_startup T p (snd (cleanup m2)))"
    by (simp add: observe_def Menu_startup_fields cleanup_def Let_def)
  from observe_updates [OF this, of fs ds] show ?thesis
    by (simp add: cleanup_def Let_def)
qed

section \<open>Properties of the controller\<close>

subsection \<open>The event loop\<close>

lemma handle_event_cases:
  "handle_event QUIT w = w\<lparr>ctl := (ctl w)\<lparr>done_ctl := True\<rparr>\<rparr>"
  "handle_event KEYDOWN w =
     w\<lparr>ctl := (ctl w)\<lparr>keys := pressed (pg w)\<rparr>, calls := calls w @ [GetPressed]\<rparr>"
  "handle_event KEYUP w =
     w\<lparr>ctl := (ctl w)\<lparr>keys := pressed (pg w)\<rparr>, calls := calls w @ [GetPressed]\<rparr>"
  "handle_event (OTHER_EVENT n) w = w"
  by (simp_all add: handle_event_def)

lemma fold_handle_event:
  "fold handle_event evs w =
     w\<lparr>ctl := (ctl w)\<lparr>done_ctl := done_ctl (ctl w) \<or> QUIT \<in> set evs,
                     keys := if \<exists>e \<in> set evs. key_event e then pressed (pg w)
                             else keys (ctl w)\<rparr>,
       calls := calls w @ replicate (length (filter key_event evs)) GetPressed\<rparr>"
proof (induction evs arbitrary: w)
  case Nil
  show ?case by simp
next
  case (Cons e evs)
  show ?case
    by (cases e) (simp_all add: Cons.IH handle_event_cases replicate_app_Cons_same)
qed

text \<open>
  C8. One call of \<^verbatim>\<open>event_loop\<close> takes every pending event off the library's queue
  (the queue is empty afterwards). The controller's \<open>done\<close> flag is true at the end
  exactly when it was true before or a quit event was in the queue. The stored key
  snapshot is read anew from the library once for each key-down or key-up event of the
  queue, and is left alone when there is none. Nothing else of the controller, and no
  screen or dictionary, changes.
\<close>

theorem event_loop_drains:
  "(let q = queue (pg w); w' = event_loop w in
      queue (pg w') = [] \<and> pressed (pg w') = pressed (pg w) \<and> ticks (pg w') = ticks (pg w) \<and>
      done_ctl (ctl w') = (done_ctl (ctl w) \<or> QUIT \<in> set q) \<and>
      keys (ctl w') = (if \<exists>e \<in> set q. key_event e then pressed (pg w) else keys (ctl w)) \<and>
      calls w' = calls w @ EventGet # replicate (length (filter key_event q)) GetPressed \<and>
      heap w' = heap w \<and>
      ctl w' = (ctl w)\<lparr>done_ctl := done_ctl (ctl w'), keys := keys (ctl w')\<rparr>)"
  by (simp add: event_loop_def pg_event_get_def fold_handle_event Let_def)

lemma event_loop_eq:
  "event_loop w =
     w\<lparr>ctl := (ctl w)\<lparr>done_ctl := done_ctl (ctl w) \<or> QUIT \<in> set (queue (pg w)),
                     keys := if \<exists>e \<in> set (queue (pg w)). key_event e then pressed (pg w)
                             else keys (ctl w)\<rparr>,
       pg := (pg w)\<lparr>queue := []\<rparr>,
       calls := calls w @ EventGet # replicate (length (filter key_event (queue (pg w)))) GetPressed\<rparr>"
  by (simp add: event_loop_def pg_event_get_def fold_handle_event Let_def)

lemma arrive_fields:
  "ctl (arrive i w) = ctl w" "heap (arrive i w) = heap w" "calls (arrive i w) = calls w"
  "queue (pg (arrive i w)) = queue (pg w) @ arrived i" "ticks (pg (arrive i w)) = now i"
  "pressed (pg (arrive i w)) = held i"
  by (simp_all add: arrive_def)

subsection \<open>One update of the controller\<close>

lemma call_cleanup_eq:
  "call_cleanup a w =
     (persist (objs (heap w) a),
      w\<lparr>heap := (heap w)\<lparr>objs := (objs (heap w))(a := (objs (heap w) a)\<lparr>done := False\<rparr>)\<rparr>,
        calls := calls w @ [Cleanup a]\<rparr>)"
  by (simp add: call_cleanup_def cleanup_def Let_def)

lemma Control_update_not_done:
  assumes "state (ctl w) = Some s" and "\<not> done (objs (heap w) s)"
  shows "Control_update cls w =
    Ok (w\<lparr>ctl := (ctl w)\<lparr>current_time_ctl := ticks (pg w)\<rparr>,
          heap := update (cls s) s (keys (ctl w)) (ticks (pg w)) (heap w),
          calls := calls w @ [Update s (ticks (pg w))]\<rparr>)"
  using assms by (simp add: Control_update_def call_update_def Let_def)

lemma Control_update_flip:
  assumes "state (ctl w) = Some s" and "done (objs (heap w) s)"
    and "state_dict (ctl w) (next (objs (heap w) s)) = Some n"
  shows "Control_update cls w =
    Ok (w\<lparr>ctl := (ctl w)\<lparr>current_time_ctl := ticks (pg w),
                          state_name := next (objs (heap w) s), state := Some n\<rparr>,
          heap := update (cls n) n (keys (ctl w)) (ticks (pg w))
                    (startup (cls n) n (ticks (pg w)) (persist (objs (heap w) s))
                       ((heap w)\<lparr>objs := (objs (heap w))(s := (objs (heap w) s)\<lparr>done := False\<rparr>)\<rparr>)),
          calls := calls w @ [Cleanup s, Startup n (ticks (pg w)) (persist (objs (heap w) s)),
                              Update n (ticks (pg w))]\<rparr>)"
  using assms
  by (simp add: Control_update_def flip_state_def call_cleanup_eq call_startup_def
      call_update_def Let_def)

lemma Control_update_missing:
  assumes "state (ctl w) = Some s" and "done (objs (heap w) s)"
    and "state_dict (ctl w) (next (objs (heap w) s)) = None"
  shows "Control_update cls w =
    Raised (KeyError (next (objs (heap w) s)))
       (w\<lparr>ctl := (ctl w)\<lparr>current_time_ctl := ticks (pg w),
                          state_name := next (objs (heap w) s)\<rparr>,
          heap := (heap w)\<lparr>objs := (objs (heap w))(s := (objs (heap w) s)\<lparr>done := False\<rparr>)\<rparr>,
          calls := calls w @ [Cleanup s]\<rparr>)"
  using assms
  by (simp add: Control_update_def flip_state_def call_cleanup_eq call_startup_def
      call_update_def Let_def)

text \<open>
  C1. The active screen \<open>s\<close> is done and its \<open>next\<close> is registered, for the object \<open>n\<close>.
  Then one \<^verbatim>\<open>Control.update\<close> ends normally, \<open>state_name\<close> is the outgoing screen's
  \<open>next\<close>, the active screen is \<open>n\<close>, and the controller has made exactly three calls
  on screens, in this order: \<^verbatim>\<open>cleanup\<close> on \<open>s\<close>; \<^verbatim>\<open>startup\<close> on \<open>n\<close> with the
  clock's time and the very address that this \<^verbatim>\<open>cleanup\<close> returned; \<^verbatim>\<open>update\<close> on
  \<open>n\<close>. The store afterwards is the result of exactly these three methods, applied in
  this order.
\<close>

theorem transition_before_update:
  assumes "state (ctl w) = Some s" and "done (objs (heap w) s)"
    and "state_dict (ctl w) (next (objs (heap w) s)) = Some n"
  shows "\<exists>w'. Control_update cls w = Ok w' \<and>
     state_name (ctl w') = next (objs (heap w) s) \<and> state (ctl w') = Some n \<and>
     calls w' = calls w @ [Cleanup s,
                           Startup n (ticks (pg w)) (fst (cleanup (objs (heap w) s))),
                           Update n (ticks (pg w))] \<and>
     heap w' = update (cls n) n (keys (ctl w)) (ticks (pg w))
                 (startup (cls n) n (ticks (pg w)) (fst (cleanup (objs (heap w) s)))
                    ((heap w)\<lparr>objs := (objs (heap w))(s := snd (cleanup (objs (heap w) s)))\<rparr>))"
  by (simp add: Control_update_flip [OF assms] cleanup_def Let_def)

lemma Control_update_Ok:
  assumes "Control_update cls w = Ok w'"
  shows "done_ctl (ctl w') = done_ctl (ctl w) \<and> fps (ctl w') = fps (ctl w) \<and>
    pg w' = pg w \<and>
    (\<exists>us a. calls w' = calls w @ us @ [Update a (ticks (pg w))] \<and> state (ctl w') = Some a \<and>
       (us = [] \<or> (\<exists>s p. us = [Cleanup s, Startup a (ticks (pg w)) p])))"
proof (cases "state (ctl w)")
  case None
  with assms show ?thesis by (simp add: Control_update_def Let_def)
next
  case (Some s)
  show ?thesis
  proof (cases "done (objs (heap w) s)")
    case False
    from Control_update_not_done [OF Some False, of cls] assms Some show ?thesis by auto
  next
    case True
    show ?thesis
    proof (cases "state_dict (ctl w) (next (objs (heap w) s))")
      case None
      from Control_update_missing [OF Some True None, of cls] assms show ?thesis by simp
    next
      case (Some n)
      from Control_update_flip [OF \<open>state (ctl w) = Some s\<close> True Some, of cls] assms
      show ?thesis by auto
    qed
  qed
qed

subsection \<open>Frames without a transition\<close>

lemma main_body_not_done:
  assumes "state (ctl w) = Some s" and "\<not> done (objs (heap w) s)"
  shows "\<exists>w'. main_body cls w = Ok w' \<and> state (ctl w') = Some s \<and>
     state_name (ctl w') = state_name (ctl w) \<and> state_dict (ctl w') = state_dict (ctl w) \<and>
     fps (ctl w') = fps (ctl w) \<and>
     calls w' = calls w @ EventGet # replicate (length (filter key_event (queue (pg w)))) GetPressed
                  @ [Update s (ticks (pg w)), DisplayUpdate, ClockTick (fps (ctl w))]"
proof -
  let ?w1 = "event_loop w"
  have 1: "state (ctl ?w1) = Some s" "\<not> done (objs (heap ?w1) s)"
    using assms by (simp_all add: event_loop_eq)
  show ?thesis
    unfolding main_body_def Let_def Control_update_not_done [OF 1]
    using assms by (simp add: display_update_def clock_tick_def event_loop_eq)
qed

text \<open>
  C2. A run of frames in which, at the start of every frame, the active screen \<open>s\<close> is
  not done (no code between the start of a frame and the test in \<^verbatim>\<open>Control.update\<close>
  touches a screen). The run ends normally; \<open>state_name\<close>, the active screen and
  the registry are what they were; and the calls the controller made on screens during
  the run are one \<^verbatim>\<open>update\<close> on \<open>s\<close> per frame and nothing else: no \<^verbatim>\<open>cleanup\<close> and
  no \<^verbatim>\<open>startup\<close> on any screen.
\<close>

theorem no_transition_while_not_done:
  assumes "state (ctl w) = Some s" and "never_done cls ins w"
  shows "\<exists>w' new. frames cls ins w = Ok w' \<and>
     state_name (ctl w') = state_name (ctl w) \<and> state (ctl w') = Some s \<and>
     state_dict (ctl w') = state_dict (ctl w) \<and>
     calls w' = calls w @ new \<and>
     filter screen_call new = map (\<lambda>i. Update s (now i)) ins"
  using assms
proof (induction ins arbitrary: w)
  case Nil
  then show ?case by simp
next
  case (Cons i ins)
  from Cons.prems have nd: "\<not> done (objs (heap w) s)"
    by (simp split: if_splits)
  let ?a = "arrive i w"
  from Cons.prems(1) nd have "state (ctl ?a) = Some s" "\<not> done (objs (heap ?a) s)"
    by (simp_all add: arrive_fields)
  from main_body_not_done [OF this, of cls] obtain w1 where
    b: "main_body cls ?a = Ok w1" and st: "state (ctl w1) = Some s"
    and nm: "state_name (ctl w1) = state_name (ctl w)"
    and sd: "state_dict (ctl w1) = state_dict (ctl w)"
    and c1: "calls w1 = calls w @ EventGet #
               replicate (length (filter key_event (queue (pg ?a)))) GetPressed
               @ [Update s (now i), DisplayUpdate, ClockTick (fps (ctl w))]"
    by (auto simp: arrive_fields)
  from Cons.prems b nd have "never_done cls ins w1" by simp
  from Cons.IH [OF st this] obtain w' new where
    r: "frames cls ins w1 = Ok w'" "state_name (ctl w') = state_name (ctl w1)"
      "state (ctl w') = Some s" "state_dict (ctl w') = state_dict (ctl w1)"
      "calls w' = calls w1 @ new" "filter screen_call new = map (\<lambda>i. Update s (now i)) ins"
    by blast
  let ?new = "EventGet # replicate (length (filter key_event (queue (pg ?a)))) GetPressed
               @ [Update s (now i), DisplayUpdate, ClockTick (fps (ctl w))] @ new"
  have "frames cls (i # ins) w = Ok w'" using b r(1) by simp
  moreover have "calls w' = calls w @ ?new" using r(5) c1 by simp
  moreover have "filter screen_call ?new = map (\<lambda>i. Update s (now i)) (i # ins)"
    using r(6) by simp
  ultimately show ?case using r(2,3,4) nm sd
    by (intro exI [of _ w'] exI [of _ ?new]) simp
qed

subsection \<open>The main loop\<close>

lemma main_body_Ok:
  assumes "main_body cls w = Ok w'"
  shows "done_ctl (ctl w') = (done_ctl (ctl w) \<or> QUIT \<in> set (queue (pg w))) \<and>
    (\<exists>gp us a. calls w' = calls w @ EventGet # gp @ us @
         [Update a (ticks (pg w)), DisplayUpdate, ClockTick (fps (ctl w))] \<and>
       gp = replicate (length (filter key_event (queue (pg w)))) GetPressed \<and>
       (us = [] \<or> (\<exists>s p. us = [Cleanup s, Startup a (ticks (pg w)) p])))"
proof -
  from assms obtain w2 where u: "Control_update cls (event_loop w) = Ok w2"
    and w': "w' = clock_tick (fps (ctl w2)) (display_update w2)"
    by (auto simp: main_body_def Let_def display_update_def split: result.splits)
  from Control_update_Ok [OF u] obtain us a where
    f: "done_ctl (ctl w2) = done_ctl (ctl (event_loop w))" "fps (ctl w2) = fps (ctl (event_loop w))"
    "calls w2 = calls (event_loop w) @ us @ [Update a (ticks (pg (event_loop w)))]"
    "us = [] \<or> (\<exists>s p. us = [Cleanup s, Startup a (ticks (pg (event_loop w))) p])"
    by blast
  from f w' show ?thesis
    by (simp add: event_loop_eq clock_tick_def display_update_def)
qed

lemma main_done: "done_ctl (ctl w) \<Longrightarrow> main cls inp k w = Some (Ok w)"
  by (subst main.simps) simp

lemma main_step:
  "\<not> done_ctl (ctl w) \<Longrightarrow> main_body cls (arrive (inp k) w) = Ok w' \<Longrightarrow>
   main cls inp k w = main cls inp (Suc k) w'"
  by (subst main.simps) simp

lemma main_raise:
  "\<not> done_ctl (ctl w) \<Longrightarrow> main_body cls (arrive (inp k) w) = Raised e w' \<Longrightarrow>
   main cls inp k w = Some (Raised e w')"
  by (subst main.simps) simp

lemma main_frames:
  assumes "frames cls (map inp [k..<k + n]) w = Ok w'"
    and "\<forall>j<n. \<forall>wj. frames cls (map inp [k..<k + j]) w = Ok wj \<longrightarrow> \<not> done_ctl (ctl wj)"
  shows "main cls inp k w = main cls inp (k + n) w'"
  using assms
proof (induction n arbitrary: k w)
  case 0
  then show ?case by simp
next
  case (Suc n)
  have up: "[k..<k + Suc j] = k # [Suc k..<Suc k + j]" for j
    by (simp add: upt_conv_Cons)
  from Suc.prems(2) have nd: "\<not> done_ctl (ctl w)" by force
  from Suc.prems(1) obtain w1 where b: "main_body cls (arrive (inp k) w) = Ok w1"
    and r: "frames cls (map inp [Suc k..<Suc k + n]) w1 = Ok w'"
    unfolding up by (auto split: result.splits)
  have "\<forall>j<n. \<forall>wj. frames cls (map inp [Suc k..<Suc k + j]) w1 = Ok wj \<longrightarrow> \<not> done_ctl (ctl wj)"
  proof (intro allI impI)
    fix j wj assume j: "j < n" and fj: "frames cls (map inp [Suc k..<Suc k + j]) w1 = Ok wj"
    have "frames cls (map inp [k..<k + Suc j]) w = Ok wj"
      unfolding up using b fj by simp
    with Suc.prems(2) j show "\<not> done_ctl (ctl wj)" by (metis Suc_less_eq)
  qed
  from Suc.IH [OF r this] main_step [where inp = inp, OF nd b] show ?case by simp
qed

lemma main_body_missing:
  assumes "state (ctl w) = Some s" and "done (objs (heap w) s)"
    and "state_dict (ctl w) (next (objs (heap w) s)) = None"
  shows "\<exists>w'. main_body cls w = Raised (KeyError (next (objs (heap w) s))) w'"
proof -
  let ?w1 = "event_loop w"
  have 1: "state (ctl ?w1) = Some s" "done (objs (heap ?w1) s)"
    "state_dict (ctl ?w1) (next (objs (heap ?w1) s)) = None"
    using assms by (simp_all add: event_loop_eq)
  show ?thesis
    unfolding main_body_def Let_def Control_update_missing [OF 1]
    by (simp add: event_loop_eq)
qed

text \<open>
  C4. Registration succeeds whenever the start identifier is registered: it reads no
  screen, so a \<open>next\<close> that names no registered screen goes unnoticed. When the active
  screen is done and its \<open>next\<close> is not a key of the registry, \<^verbatim>\<open>Control.update\<close>
  raises \<^verbatim>\<open>KeyError\<close> with that identifier: \<^verbatim>\<open>cleanup\<close> has been called on the old
  screen, but no \<^verbatim>\<open>startup\<close> and no \<^verbatim>\<open>update\<close> follows; and the main loop, entered in
  such a state, ends with that exception instead of going on.
\<close>

theorem unregistered_next_raises:
  "(sd start = Some a \<longrightarrow>
      setup_states sd start w0
        = Ok (w0\<lparr>ctl := (ctl w0)\<lparr>state_dict := sd, state_name := start, state := Some a\<rparr>\<rparr>)) \<and>
   (state (ctl w) = Some s \<and> done (objs (heap w) s) \<and>
    state_dict (ctl w) (next (objs (heap w) s)) = None \<longrightarrow>
      (\<exists>w'. Control_update cls w = Raised (KeyError (next (objs (heap w) s))) w' \<and>
            calls w' = calls w @ [Cleanup s] \<and>
            state_name (ctl w') = next (objs (heap w) s) \<and> state (ctl w') = Some s) \<and>
      (\<not> done_ctl (ctl w) \<longrightarrow>
         (\<exists>w'. main cls inp k w = Some (Raised (KeyError (next (objs (heap w) s))) w'))))"
proof (intro conjI impI)
  assume "sd start = Some a"
  then show "setup_states sd start w0
        = Ok (w0\<lparr>ctl := (ctl w0)\<lparr>state_dict := sd, state_name := start, state := Some a\<rparr>\<rparr>)"
    by (simp add: setup_states_def Let_def)
next
  assume a: "state (ctl w) = Some s \<and> done (objs (heap w) s) \<and>
    state_dict (ctl w) (next (objs (heap w) s)) = None"
  then show "\<exists>w'. Control_update cls w = Raised (KeyError (next (objs (heap w) s))) w' \<and>
            calls w' = calls w @ [Cleanup s] \<and>
            state_name (ctl w') = next (objs (heap w) s) \<and> state (ctl w') = Some s"
    by (simp add: Control_update_missing)
  assume nd: "\<not> done_ctl (ctl w)"
  let ?a = "arrive (inp k) w"
  from a have "state (ctl ?a) = Some s" "done (objs (heap ?a) s)"
    "state_dict (ctl ?a) (next (objs (heap ?a) s)) = None"
    by (simp_all add: arrive_fields)
  from main_body_missing [OF this, of cls] obtain w' where
    "main_body cls ?a = Raised (KeyError (next (objs (heap w) s))) w'"
    by (auto simp: arrive_fields)
  from main_raise [where inp = inp, OF nd this]
  show "\<exists>w'. main cls inp k w = Some (Raised (KeyError (next (objs (heap w) s))) w')"
    by blast
qed

text \<open>
  C9. (1) An iteration of the main loop that raises no exception makes its calls in this
  order: \<^verbatim>\<open>pg.event.get()\<close> and the key snapshots of the event loop; then the calls
  of \<^verbatim>\<open>Control.update\<close>, a transition (\<^verbatim>\<open>cleanup\<close>, \<^verbatim>\<open>startup\<close>) or none and then
  one \<^verbatim>\<open>update\<close> of a screen; then \<^verbatim>\<open>pg.display.update()\<close>; then
  \<^verbatim>\<open>clock.tick(fps)\<close>. (2) When the flag is true at the top of the loop, \<^verbatim>\<open>main\<close>
  returns at once, with nothing changed. (3) When the flag is false at the top, the
  iteration runs to its end, and if a quit event was pending or arrived, the state at
  the end of that whole iteration is what \<^verbatim>\<open>main\<close> returns; otherwise \<^verbatim>\<open>main\<close>
  goes on with the next iteration. (4) If the flag is first found true after \<open>n\<close>
  complete iterations, \<^verbatim>\<open>main\<close> returns, and returns the state after exactly these
  \<open>n\<close> iterations.
\<close>

theorem main_loop_order:
  "(main_body cls w = Ok w1 \<longrightarrow>
      (\<exists>us a. calls w1 = calls w @ EventGet #
                 replicate (length (filter key_event (queue (pg w)))) GetPressed @ us @
                 [Update a (ticks (pg w)), DisplayUpdate, ClockTick (fps (ctl w))] \<and>
               (us = [] \<or> (\<exists>s p. us = [Cleanup s, Startup a (ticks (pg w)) p])))) \<and>
   (done_ctl (ctl w) \<longrightarrow> main cls inp k w = Some (Ok w)) \<and>
   (\<not> done_ctl (ctl w) \<and> main_body cls (arrive (inp k) w) = Ok w2 \<longrightarrow>
      main cls inp k w =
        (if QUIT \<in> set (queue (pg w) @ arrived (inp k)) then Some (Ok w2)
         else main cls inp (Suc k) w2)) \<and>
   (frames cls (map inp [k..<k + n]) w = Ok w3 \<and> done_ctl (ctl w3) \<and>
    (\<forall>j<n. \<forall>wj. frames cls (map inp [k..<k + j]) w = Ok wj \<longrightarrow> \<not> done_ctl (ctl wj)) \<longrightarrow>
      main cls inp k w = Some (Ok w3))"
proof (intro conjI impI)
  assume "main_body cls w = Ok w1"
  from main_body_Ok [OF this]
  show "\<exists>us a. calls w1 = calls w @ EventGet #
                 replicate (length (filter key_event (queue (pg w)))) GetPressed @ us @
                 [Update a (ticks (pg w)), DisplayUpdate, ClockTick (fps (ctl w))] \<and>
               (us = [] \<or> (\<exists>s p. us = [Cleanup s, Startup a (ticks (pg w)) p]))"
    by blast
next
  assume "done_ctl (ctl w)"
  then show "main cls inp k w = Some (Ok w)" by (rule main_done)
next
  assume a: "\<not> done_ctl (ctl w) \<and> main_body cls (arrive (inp k) w) = Ok w2"
  then have nd: "\<not> done_ctl (ctl w)" and b: "main_body cls (arrive (inp k) w) = Ok w2"
    by simp_all
  from main_body_Ok [OF b] nd
  have d: "done_ctl (ctl w2) = (QUIT \<in> set (queue (pg w) @ arrived (inp k)))"
    by (simp add: arrive_fields)
  show "main cls inp k w =
        (if QUIT \<in> set (queue (pg w) @ arrived (inp k)) then Some (Ok w2)
         else main cls inp (Suc k) w2)"
  proof (cases "QUIT \<in> set (queue (pg w) @ arrived (inp k))")
    case True
    with d have "main cls inp (Suc k) w2 = Some (Ok w2)" by (simp add: main_done)
    with main_step [where inp = inp, OF nd b] True show ?thesis by simp
  next
    case False
    with main_step [where inp = inp, OF nd b] show ?thesis by simp
  qed
next
  assume a: "frames cls (map inp [k..<k + n]) w = Ok w3 \<and> done_ctl (ctl w3) \<and>
    (\<forall>j<n. \<forall>wj. frames cls (map inp [k..<k + j]) w = Ok wj \<longrightarrow> \<not> done_ctl (ctl wj))"
  then have "main cls inp k w = main cls inp (k + n) w3"
    by (intro main_frames) simp_all
  with a show "main cls inp k w = Some (Ok w3)" by (simp add: main_done)
qed

section \<open>The theorems on the small configuration\<close>

lemmas base_defs = example_heap_def example_pg_def example_world_def example_registry_def
  example_classes_def idle_input_def quit_input_def confirm_input_def
  progress_dicts_def example_menu_def Menu_init_def State_init_def Control_init_def
  Menu_methods_def Menu_startup_m_def Menu_update_m_def Menu_startup_def Menu_update_def
  update_cursor_def reset_game_info_def Info_update_def setup_player_def setup_cursor_def
  setitem_def setup_states_def MAIN_MENU_def LOAD_SCREEN_def State.extend_def

lemmas ex_defs = base_defs example_started_def example_confirmed_def lone_started_def
  lone_confirmed_def example_idle_def example_quit_def

lemmas run_defs = main_body_def Let_def arrive_def event_loop_eq Control_update_def
  call_update_def display_update_def clock_tick_def

lemma started_facts:
  "state (ctl example_started) = Some 0" "state_name (ctl example_started) = MAIN_MENU"
  "done (objs (heap example_started) 0) = False" "calls example_started = []"
  "done_ctl (ctl example_started) = False"
  "state_dict (ctl example_started) = example_registry"
  by (simp_all add: ex_defs Let_def)

lemma confirmed_facts:
  "state (ctl example_confirmed) = Some 0"
  "done (objs (heap example_confirmed) 0)"
  "next (objs (heap example_confirmed) 0) = LOAD_SCREEN"
  "state_dict (ctl example_confirmed) = example_registry"
  "calls example_confirmed = [EventGet, GetPressed, Update 0 16, DisplayUpdate, ClockTick 60]"
  "persist (objs (heap example_confirmed) 0) = 1"
  unfolding example_confirmed_def
  by (simp_all add: main_body_def Let_def arrive_def event_loop_eq Control_update_def
       call_update_def display_update_def clock_tick_def ex_defs)

lemma confirmed_more:
  "ticks (pg example_confirmed) = 16" "done_ctl (ctl example_confirmed) = False"
  "keys (ctl example_confirmed) K_RETURN"
  unfolding example_confirmed_def
  by (simp_all add: main_body_def Let_def arrive_def event_loop_eq Control_update_def
       call_update_def display_update_def clock_tick_def ex_defs)

lemma Menu_update_keeps:
  "timer_start (fst (Menu_update ks t (m, ds))) = timer_start m"
  "game_info (fst (Menu_update ks t (m, ds))) = game_info m"
  "persist m = game_info m \<Longrightarrow> persist (fst (Menu_update ks t (m, ds))) = persist m"
  by (simp_all add: Menu_update_def update_cursor_def reset_game_info_def Info_update_def
      Let_def split: prod.splits)

lemma Menu_methods_objs:
  "objs (update Menu_methods a ks t (startup Menu_methods a T p h)) a
     = fst (Menu_update ks t (Menu_startup T p (objs h a), dicts h))"
  "b \<noteq> a \<Longrightarrow> objs (update Menu_methods a ks t (startup Menu_methods a T p h)) b = objs h b"
  by (simp_all add: Menu_methods_def Menu_startup_m_def Menu_update_m_def split: prod.splits)

text \<open>
  The transition in the configuration: the main menu has been confirmed; the next
  \<^verbatim>\<open>Control.update\<close> cleans it up and starts the second menu with bundle 1 at time 16.
\<close>

theorem transition_before_update_witness:
  "\<exists>w'. Control_update example_classes example_confirmed = Ok w' \<and>
     state_name (ctl w') = LOAD_SCREEN \<and> state (ctl w') = Some 1 \<and>
     calls w' = [EventGet, GetPressed, Update 0 16, DisplayUpdate, ClockTick 60,
                 Cleanup 0, Startup 1 16 1, Update 1 16] \<and>
     persist (objs (heap w') 1) = 1 \<and> timer_start (objs (heap w') 1) = 16 \<and>
     \<not> done (objs (heap w') 0)"
proof -
  have "state_dict (ctl example_confirmed) (next (objs (heap example_confirmed) 0)) = Some 1"
    by (simp add: confirmed_facts example_registry_def LOAD_SCREEN_def MAIN_MENU_def)
  from transition_before_update [OF confirmed_facts(1,2) this, of example_classes]
  show ?thesis
    by (auto simp: confirmed_facts confirmed_more cleanup_def Let_def example_classes_def
        Menu_methods_objs Menu_update_keeps Menu_startup_fields)
qed

text \<open>Two idle frames of the configuration: two updates of the main menu, nothing else.\<close>

theorem no_transition_while_not_done_witness:
  "\<exists>w'. frames example_classes [idle_input 16, idle_input 32] example_started = Ok w' \<and>
     state_name (ctl w') = MAIN_MENU \<and> state (ctl w') = Some 0 \<and>
     filter screen_call (calls w') = [Update 0 16, Update 0 32]"
proof -
  have nd: "never_done example_classes [idle_input 16, idle_input 32] example_started"
    by (simp add: main_body_def Let_def arrive_def event_loop_eq Control_update_def
       call_update_def display_update_def clock_tick_def ex_defs)
  from no_transition_while_not_done [OF started_facts(1) nd]
  show ?thesis
    by (auto simp: started_facts idle_input_def)
qed

lemma lone_confirmed_facts:
  "state (ctl lone_confirmed) = Some 0"
  "done (objs (heap lone_confirmed) 0)"
  "next (objs (heap lone_confirmed) 0) = LOAD_SCREEN"
  "state_dict (ctl lone_confirmed) = [MAIN_MENU \<mapsto> 0]"
  "calls lone_confirmed = [EventGet, GetPressed, Update 0 16, DisplayUpdate, ClockTick 60]"
  "done_ctl (ctl lone_confirmed) = False"
  unfolding lone_confirmed_def
  by (simp_all add: run_defs ex_defs)

text \<open>
  The registry with the menu alone: registration succeeds although the menu's \<open>next\<close>
  is not registered, and the update after the confirmation raises the \<^verbatim>\<open>KeyError\<close>.
\<close>

theorem unregistered_next_raises_witness:
  "(\<exists>w1. setup_states [MAIN_MENU \<mapsto> 0] MAIN_MENU example_world = Ok w1 \<and>
         state (ctl w1) = Some 0 \<and> next (objs (heap w1) 0) = LOAD_SCREEN) \<and>
   (\<exists>w'. Control_update example_classes lone_confirmed = Raised (KeyError LOAD_SCREEN) w' \<and>
         calls w' = [EventGet, GetPressed, Update 0 16, DisplayUpdate, ClockTick 60, Cleanup 0] \<and>
         state_name (ctl w') = LOAD_SCREEN \<and> state (ctl w') = Some 0) \<and>
   (\<exists>w'. main example_classes (\<lambda>k. idle_input 32) 0 lone_confirmed
           = Some (Raised (KeyError LOAD_SCREEN) w'))"
proof -
  have reg: "[MAIN_MENU \<mapsto> 0] MAIN_MENU = Some (0::addr)" by simp
  have miss: "state (ctl lone_confirmed) = Some 0 \<and> done (objs (heap lone_confirmed) 0) \<and>
    state_dict (ctl lone_confirmed) (next (objs (heap lone_confirmed) 0)) = None"
    by (simp add: lone_confirmed_facts MAIN_MENU_def LOAD_SCREEN_def)
  note T = unregistered_next_raises [where sd = "[MAIN_MENU \<mapsto> 0]" and start = MAIN_MENU
      and a = 0 and ?w0.0 = example_world and w = lone_confirmed and s = 0
      and cls = example_classes and inp = "\<lambda>k. idle_input 32" and k = 0]
  from T reg miss show ?thesis
    by (simp add: lone_confirmed_facts base_defs)
qed

lemma example_quit_frames:
  "frames example_classes [idle_input 16, quit_input 32] example_started = Ok example_quit"
  unfolding example_quit_def
  by (simp add: run_defs ex_defs)

lemma example_quit_facts:
  "done_ctl (ctl example_quit)"
  "calls example_quit = [EventGet, Update 0 16, DisplayUpdate, ClockTick 60,
                         EventGet, Update 0 32, DisplayUpdate, ClockTick 60]"
  unfolding example_quit_def
  by (simp_all add: run_defs ex_defs)

text \<open>
  An idle frame, then a frame in which the quit event arrives: \<^verbatim>\<open>main\<close> returns after
  the second frame has run to its end.
\<close>

lemma example_bodies:
  "main_body example_classes (arrive (idle_then_quit 0) example_started) = Ok example_idle"
  "main_body example_classes (arrive (idle_then_quit 1) example_idle) = Ok example_quit"
  unfolding example_idle_def example_quit_def idle_then_quit_def
  by (simp_all add: run_defs ex_defs)

lemma example_idle_facts:
  "\<not> done_ctl (ctl example_idle)" "queue (pg example_idle) = []"
  "calls example_idle = [EventGet, Update 0 16, DisplayUpdate, ClockTick 60]"
  unfolding example_idle_def
  by (simp_all add: run_defs ex_defs)

theorem main_loop_order_witness:
  "main example_classes idle_then_quit 0 example_started = Some (Ok example_quit) \<and>
   main example_classes idle_then_quit 0 example_started
     = main example_classes idle_then_quit 1 example_idle \<and>
   main example_classes idle_then_quit 1 example_idle = Some (Ok example_quit) \<and>
   main example_classes idle_then_quit 2 example_quit = Some (Ok example_quit) \<and>
   done_ctl (ctl example_quit) \<and>
   calls example_idle = [EventGet, Update 0 16, DisplayUpdate, ClockTick 60] \<and>
   calls example_quit = calls example_idle @ [EventGet, Update 0 32, DisplayUpdate, ClockTick 60] \<and>
   (\<exists>us a. calls example_quit = calls example_idle @ EventGet # us @
              [Update a 32, DisplayUpdate, ClockTick 60] \<and>
            (us = [] \<or> (\<exists>s p. us = [Cleanup s, Startup a 32 p])))"
proof -
  note T = main_loop_order [where cls = example_classes and inp = idle_then_quit]
  have up: "map idle_then_quit [0..<0 + 2] = [idle_input 16, quit_input 32]"
    by (simp add: idle_then_quit_def upt_rec)
  have fr: "frames example_classes (map idle_then_quit [0..<0 + 2]) example_started
              = Ok example_quit"
    unfolding up by (rule example_quit_frames)
  have before: "\<forall>j<2. \<forall>wj.
      frames example_classes (map idle_then_quit [0..<0 + j]) example_started = Ok wj
        \<longrightarrow> \<not> done_ctl (ctl wj)"
  proof (intro allI impI)
    fix j :: nat and wj
    assume j: "j < 2"
      and f: "frames example_classes (map idle_then_quit [0..<0 + j]) example_started = Ok wj"
    from j consider "j = 0" | "j = 1" by linarith
    then show "\<not> done_ctl (ctl wj)"
    proof cases
      case 1
      with f show ?thesis by (simp add: started_facts)
    next
      case 2
      with f example_bodies(1) example_idle_facts(1) show ?thesis by auto
    qed
  qed
  from T [where w = example_started and k = 0 and n = 2 and ?w3.0 = example_quit]
    fr before example_quit_facts(1)
  have whole: "main example_classes idle_then_quit 0 example_started = Some (Ok example_quit)"
    by blast
  from T [where w = example_started and k = 0 and ?w2.0 = example_idle]
    started_facts(5) example_bodies(1)
  have first: "main example_classes idle_then_quit 0 example_started
     = main example_classes idle_then_quit 1 example_idle"
    by (simp add: base_defs example_started_def idle_then_quit_def)
  from T [where w = example_idle and k = 1 and ?w2.0 = example_quit]
    example_idle_facts(1) example_bodies(2)
  have second: "main example_classes idle_then_quit 1 example_idle = Some (Ok example_quit)"
    by (simp add: idle_then_quit_def quit_input_def)
  from T [where w = example_quit and k = 2] example_quit_facts(1)
  have stop: "main example_classes idle_then_quit 2 example_quit = Some (Ok example_quit)"
    by blast
  from T [where w = "arrive (idle_then_quit 1) example_idle" and ?w1.0 = example_quit]
    example_bodies(2)
  have order: "\<exists>us a. calls example_quit = calls example_idle @ EventGet # us @
              [Update a 32, DisplayUpdate, ClockTick 60] \<and>
            (us = [] \<or> (\<exists>s p. us = [Cleanup s, Startup a 32 p]))"
    by (simp add: arrive_fields idle_then_quit_def quit_input_def key_event.simps
        example_idle_def run_defs ex_defs)
  from whole first second stop order example_quit_facts example_idle_facts show ?thesis
    by simp
qed

lemma example_menu_fresh: "\<not> done example_menu"
  by (simp add: base_defs Let_def)

text \<open>
  The menu activated at time 250 and left alone: not done after the call at 1249, done
  after the call at 1250.
\<close>

theorem menu_timeout_witness:
  "\<not> done example_menu \<and> sorted_wrt (<) (map snd idle_frames) \<and>
   done (fst (Menu_updates (take 2 idle_frames)
                (Menu_startup 250 1 example_menu, progress_dicts))) = False \<and>
   done (fst (Menu_updates (take 3 idle_frames)
                (Menu_startup 250 1 example_menu, progress_dicts))) = True \<and>
   next (fst (Menu_updates (take 3 idle_frames)
                (Menu_startup 250 1 example_menu, progress_dicts))) = LOAD_SCREEN"
proof -
  have idle: "\<forall>f \<in> set idle_frames. \<forall>k. \<not> fst f k"
    by (simp add: idle_frames_def)
  have incr: "sorted_wrt (<) (map snd idle_frames)"
    by (simp add: idle_frames_def)
  have len: "1 < length idle_frames" "2 < length idle_frames"
    by (simp_all add: idle_frames_def)
  have t: "snd (idle_frames ! 1) = 1249" "snd (idle_frames ! 2) = 1250"
    by (simp_all add: idle_frames_def)
  note T = menu_timeout [OF example_menu_fresh idle incr, where T = 250 and p = 1
      and ds = progress_dicts]
  from T [OF len(1)] T [OF len(2)] t incr example_menu_fresh
  show ?thesis
    by (simp add: numeral_2_eq_2 numeral_3_eq_3)
qed

text \<open>Down, then confirm or up, on the menu of the configuration.\<close>

theorem menu_selection_witness:
  "(let start = (Menu_startup 0 1 example_menu, progress_dicts);
        down = Menu_update (\<lambda>k. k = K_DOWN) 16 start;
        confirm = Menu_update (\<lambda>k. k = K_RETURN) 32 down;
        up = Menu_update (\<lambda>k. k = K_UP) 32 down
    in snd down (persist (fst down)) PLAYER_NAME = Some PLAYER_LUIGI \<and>
       snd confirm (persist (fst confirm)) PLAYER_NAME = Some PLAYER_LUIGI \<and>
       done (fst confirm) \<and>
       snd up (persist (fst up)) PLAYER_NAME = Some PLAYER_MARIO)"
proof -
  let ?start = "(Menu_startup 0 1 example_menu, progress_dicts)"
  let ?down = "Menu_update (\<lambda>k. k = K_DOWN) 16 ?start"
  have k: "(\<lambda>k. k = K_DOWN) K_DOWN" by simp
  have d: "Menu_update (\<lambda>k. k = K_DOWN) 16 ?start = (fst ?down, snd ?down)" by simp
  from menu_selection [OF k d, where ?ks2.0 = "\<lambda>k. k = K_RETURN" and ?t2.0 = 32
      and ?ks3.0 = "\<lambda>k. k = K_UP" and ?t3.0 = 32]
  show ?thesis
    by (simp add: Let_def split_beta)
qed

text \<open>
  The menu activated on a bundle in mid-game: an idle frame keeps the statistics, a
  frame with the confirm key resets them.
\<close>

theorem menu_resets_only_on_confirm_witness:
  "(let start = (Menu_startup 0 1 example_menu, progress_dicts);
        idle = snd (Menu_update (\<lambda>k. False) 16 start);
        confirm = snd (Menu_update (\<lambda>k. k = K_RETURN) 16 start)
    in idle 1 COIN_TOTAL = Some (Num 7) \<and> idle 1 SCORE = Some (Num 1200) \<and>
       idle 1 LIVES = Some (Num 2) \<and> idle 1 LEVEL_NUM = Some (Num 3) \<and>
       confirm 1 COIN_TOTAL = Some (Num 0) \<and> confirm 1 SCORE = Some (Num 0) \<and>
       confirm 1 LIVES = Some (Num 3) \<and> confirm 1 LEVEL_NUM = Some (Num 1)) \<and>
   dicts (Menu_startup_m 0 16 1 example_heap) = dicts example_heap"
proof -
  note T = menu_resets_only_on_confirm [where m = "Menu_startup 0 1 example_menu"
      and ds = progress_dicts and t = 16 and a = 1 and self = 0 and p = 1 and h = example_heap]
  from T [where ks = "\<lambda>k. False"] T [where ks = "\<lambda>k. k = K_RETURN"]
  show ?thesis
    by (simp add: Let_def Menu_startup_fields progress_dicts_def)
qed

end
